theory Spec2Isabelle
  imports Complex_Main
begin

section \<open>Values exchanged with the AdsPower local API\<close>

text \<open>
  The automation service answers in JSON, and \<open>response.json()\<close> turns the answer into
  Python values: \<open>None\<close>, \<open>bool\<close>, \<open>int\<close>, \<open>float\<close>, \<open>str\<close>, \<open>list\<close> and \<open>dict\<close>.
  A float is a finite value, an infinity or a NaN; the finite ones are rationals here
  (every finite double is one, and \<open>-0.0\<close> and \<open>0.0\<close> are both \<open>Finite 0\<close>).
  A Python string is a \<open>char list\<close> of code points below 256, on which \<open>str.strip\<close> and
  \<open>str.lower\<close> are written out in full below. A \<open>dict\<close> is an association list that is
  read with \<open>map_of\<close>.
\<close>

datatype pyfloat = Finite rat | PosInf | NegInf | NaN

datatype pyval =
    JNull
  | JBool bool
  | JInt int
  | JFloat pyfloat
  | JStr string
  | JList "pyval list"
  | JDict "(string \<times> pyval) list"

text \<open>
  The exceptions a job can meet. Whatever the HTTP library raises (a transport, timeout
  or status error of httpx, a JSON decoding error) is a \<open>LibraryError\<close> carrying the
  text that \<open>str(exc)\<close> gives. \<open>AttributeError\<close> is what \<open>value.get\<close> raises on a
  value that is not a \<open>dict\<close>; it carries the name of the value's type.
\<close>

datatype exn = LibraryError string | AttributeError string

fun type_name :: "pyval \<Rightarrow> string" where
  "type_name JNull = ''NoneType''"
| "type_name (JBool _) = ''bool''"
| "type_name (JInt _) = ''int''"
| "type_name (JFloat _) = ''float''"
| "type_name (JStr _) = ''str''"
| "type_name (JList _) = ''list''"
| "type_name (JDict _) = ''dict''"

fun str_exc :: "exn \<Rightarrow> string" where
  "str_exc (LibraryError msg) = msg"
| "str_exc (AttributeError ty) = [CHR 0x27] @ ty @ [CHR 0x27] @ '' object has no attribute '' @ [CHR 0x27] @ ''get'' @ [CHR 0x27]"

subsection \<open>Python's string and dictionary primitives\<close>

definition isspace :: "char \<Rightarrow> bool" where
  "isspace c = (of_char c \<in> {9, 10, 11, 12, 13, 28, 29, 30, 31, 32, 133, 160 :: nat})"

definition strip :: "string \<Rightarrow> string" where
  "strip s = rev (dropWhile isspace (rev (dropWhile isspace s)))"

definition lower_char :: "char \<Rightarrow> char" where
  "lower_char c =
     (let n = (of_char c :: nat)
      in if (65 \<le> n \<and> n \<le> 90) \<or> (192 \<le> n \<and> n \<le> 222 \<and> n \<noteq> 215)
         then char_of (n + 32) else c)"

definition lower :: "string \<Rightarrow> string" where
  "lower s = map lower_char s"

text \<open>\<open>d.get(k)\<close>: the value stored under \<open>k\<close>, or \<open>None\<close>.\<close>

definition dict_get :: "(string \<times> pyval) list \<Rightarrow> string \<Rightarrow> pyval" where
  "dict_get d k = (case map_of d k of None \<Rightarrow> JNull | Some v \<Rightarrow> v)"

text \<open>\<open>d.get(k, default)\<close>.\<close>

definition dict_get_default :: "(string \<times> pyval) list \<Rightarrow> string \<Rightarrow> pyval \<Rightarrow> pyval" where
  "dict_get_default d k dflt = (case map_of d k of None \<Rightarrow> dflt | Some v \<Rightarrow> v)"

text \<open>\<open>value.get(k)\<close> on an arbitrary value: only a \<open>dict\<close> has the method.\<close>

definition attr_get :: "pyval \<Rightarrow> string \<Rightarrow> exn + pyval" where
  "attr_get v k =
     (case v of JDict d \<Rightarrow> Inr (dict_get d k) | _ \<Rightarrow> Inl (AttributeError (type_name v)))"

text \<open>The decimal text of an integer, as \<open>str\<close> prints it.\<close>

definition digit_char :: "nat \<Rightarrow> char" where
  "digit_char d = char_of (48 + d)"

function str_nat :: "nat \<Rightarrow> string" where
  "str_nat n = (if n < 10 then [digit_char n] else str_nat (n div 10) @ [digit_char (n mod 10)])"
  by pat_completeness auto
termination
  by (relation "measure (\<lambda>n. n)") auto

declare str_nat.simps [simp del]

definition str_int :: "int \<Rightarrow> string" where
  "str_int i = (if i < 0 then CHR ''-'' # str_nat (nat (- i)) else str_nat (nat i))"

text \<open>
  \<open>str(value)\<close>. The text of a float, a list or a dict is Python's \<open>repr\<close> of it
  (shortest round-trip digits, quoting and escaping of nested strings), which is taken
  as the parameter \<open>py_repr\<close>.
\<close>

fun py_str :: "(pyval \<Rightarrow> string) \<Rightarrow> pyval \<Rightarrow> string" where
  "py_str py_repr JNull = ''None''"
| "py_str py_repr (JBool b) = (if b then ''True'' else ''False'')"
| "py_str py_repr (JInt i) = str_int i"
| "py_str py_repr (JStr s) = s"
| "py_str py_repr v = py_repr v"

section \<open>The response interpreter (checker.py)\<close>

text \<open>
  \<^verbatim>\<open>
  def _extract_variables(response: dict) -> dict:
      variables = response.get("data", {}).get("variables")
      if isinstance(variables, dict):
          return variables
      if isinstance(response.get("variables"), dict):
          return response["variables"]
      return {}
  \<close>
  The function is called on whatever \<open>response.json()\<close> returned. Both \<open>.get\<close> calls of
  the first line raise on a receiver that is not a \<open>dict\<close>.
\<close>

definition extract_variables :: "pyval \<Rightarrow> exn + (string \<times> pyval) list" where
  "extract_variables response =
     (case response of
        JDict r \<Rightarrow>
          (case attr_get (dict_get_default r ''data'' (JDict [])) ''variables'' of
             Inl e \<Rightarrow> Inl e
           | Inr variables \<Rightarrow>
               (case variables of
                  JDict vs \<Rightarrow> Inr vs
                | _ \<Rightarrow> (case dict_get r ''variables'' of
                          JDict ws \<Rightarrow> Inr ws
                        | _ \<Rightarrow> Inr [])))
      | _ \<Rightarrow> Inl (AttributeError (type_name response)))"

text \<open>
  \<^verbatim>\<open>
  def _parse_bool(value: object) -> bool:
      if isinstance(value, bool):
          return value
      if isinstance(value, str):
          return value.strip().lower() in {"1", "true", "yes", "y"}
      if isinstance(value, (int, float)):
          return bool(value)
      return False
  \<close>
  \<open>bool\<close> is a subclass of \<open>int\<close> in Python, so \<open>isinstance(value, (int, float))\<close> holds
  of a boolean too; the first test has already returned for it.
\<close>

fun isinstance_bool :: "pyval \<Rightarrow> bool" where
  "isinstance_bool (JBool _) = True"
| "isinstance_bool _ = False"

fun isinstance_str :: "pyval \<Rightarrow> bool" where
  "isinstance_str (JStr _) = True"
| "isinstance_str _ = False"

fun isinstance_int_float :: "pyval \<Rightarrow> bool" where
  "isinstance_int_float (JBool _) = True"
| "isinstance_int_float (JInt _) = True"
| "isinstance_int_float (JFloat _) = True"
| "isinstance_int_float _ = False"

text \<open>\<open>bool(value)\<close> of a number: false exactly at zero (a NaN and the infinities are true).\<close>

fun truthy_number :: "pyval \<Rightarrow> bool" where
  "truthy_number (JBool b) = b"
| "truthy_number (JInt i) = (i \<noteq> 0)"
| "truthy_number (JFloat f) = (f \<noteq> Finite 0)"
| "truthy_number _ = False"

fun the_bool :: "pyval \<Rightarrow> bool" where
  "the_bool (JBool b) = b"
| "the_bool _ = False"

fun the_str :: "pyval \<Rightarrow> string" where
  "the_str (JStr s) = s"
| "the_str _ = []"

definition parse_bool :: "pyval \<Rightarrow> bool" where
  "parse_bool v =
     (if isinstance_bool v then the_bool v
      else if isinstance_str v then lower (strip (the_str v)) \<in> {''1'', ''true'', ''yes'', ''y''}
      else if isinstance_int_float v then truthy_number v
      else False)"

text \<open>
  \<^verbatim>\<open>
  def _coerce_optional_str(value: object) -> str | None:
      if value is None:
          return None
      text = str(value).strip()
      return text or None
  \<close>
\<close>

definition coerce_optional_str :: "(pyval \<Rightarrow> string) \<Rightarrow> pyval \<Rightarrow> string option" where
  "coerce_optional_str py_repr v =
     (if v = JNull then None
      else (let text = strip (py_str py_repr v) in if text = [] then None else Some text))"

section \<open>Scenario steps (scenarios.py)\<close>

text \<open>
  \<^verbatim>\<open>
  class AutomationStep:
      type: str
      config: Dict[str, Any]
      def to_dict(self): return {"type": self.type, "config": self.config}

  class DiscordAuthorizationScenario:
      steps: List[AutomationStep]
      def to_payload(self): return [step.to_dict() for step in self.steps]
  \<close>
\<close>

record AutomationStep =
  type_s :: string
  config :: "(string \<times> pyval) list"

definition to_dict :: "AutomationStep \<Rightarrow> pyval" where
  "to_dict step = JDict [(''type'', JStr (type_s step)), (''config'', JDict (config step))]"

record DiscordAuthorizationScenario =
  steps :: "AutomationStep list"

definition to_payload :: "DiscordAuthorizationScenario \<Rightarrow> pyval list" where
  "to_payload scenario = map to_dict (steps scenario)"

section \<open>The AdsPower client (client.py)\<close>

text \<open>
  The client keeps at most one \<open>httpx.AsyncClient\<close>, created on first use from the base
  URL, the headers and the timeout. The \<open>asyncio.Lock\<close> around \<open>_get_client\<close> and
  \<open>close\<close> guards bodies that never suspend while the session is created, so each of
  them is one atomic state change here.
\<close>

record session =
  base_url_s :: string
  headers :: "(string \<times> string) list"
  timeout_s :: pyfloat

record AdsPowerClient =
  base_url :: string
  api_key :: "string option"
  timeout :: pyfloat
  client :: "session option"

text \<open>\<open>base_url.rstrip("/")\<close>\<close>

definition rstrip_slash :: "string \<Rightarrow> string" where
  "rstrip_slash s = rev (dropWhile (\<lambda>c. c = CHR ''/'') (rev s))"

definition AdsPowerClient_init :: "string \<Rightarrow> string option \<Rightarrow> pyfloat \<Rightarrow> AdsPowerClient" where
  "AdsPowerClient_init url key timeout_seconds =
     \<lparr>base_url = rstrip_slash url, api_key = key, timeout = timeout_seconds, client = None\<rparr>"

text \<open>
  \<^verbatim>\<open>
  async def _get_client(self):
      async with self._lock:
          if self._client is None:
              headers = {"Content-Type": "application/json"}
              if self._api_key:
                  headers["Authorization"] = f"Bearer {self._api_key}"
              self._client = httpx.AsyncClient(base_url=..., headers=headers, timeout=...)
          return self._client
  \<close>
\<close>

definition get_client :: "AdsPowerClient \<Rightarrow> session \<times> AdsPowerClient" where
  "get_client self =
     (case client self of
        None \<Rightarrow>
          (let hs = [(''Content-Type'', ''application/json'')] @
                    (case api_key self of
                       None \<Rightarrow> []
                     | Some k \<Rightarrow> if k \<noteq> [] then [(''Authorization'', ''Bearer '' @ k)] else []);
               s = \<lparr>base_url_s = base_url self, headers = hs, timeout_s = timeout self\<rparr>
           in (s, self\<lparr>client := Some s\<rparr>))
      | Some s \<Rightarrow> (s, self))"

text \<open>
  \<^verbatim>\<open>
  async def close(self):
      async with self._lock:
          if self._client is not None:
              await self._client.aclose()
              self._client = None
  \<close>
  \<open>aclose\<close> is the library's disposal of a session: \<open>None\<close> when it returns, the
  exception when it raises. In that case the assignment is not reached and the exception
  leaves \<open>close\<close>.
\<close>

definition close :: "(session \<Rightarrow> exn option) \<Rightarrow> AdsPowerClient \<Rightarrow> exn option \<times> AdsPowerClient" where
  "close aclose self =
     (case client self of
        None \<Rightarrow> (None, self)
      | Some s \<Rightarrow>
          (case aclose s of
             Some e \<Rightarrow> (Some e, self)
           | None \<Rightarrow> (None, self\<lparr>client := None\<rparr>)))"

text \<open>
  \<^verbatim>\<open>
  async def run_automation(self, profile_id, steps):
      client = await self._get_client()
      payload = {
          "profile_id": profile_id,
          "steps": steps,
          "options": {"fail_on_selector_timeout": True, "capture_console": True},
      }
      response = await client.post("/api/v1/automation/run", json=payload)
      response.raise_for_status()
      data = response.json()
      return data
  \<close>
  The last three lines are the remote service seen through httpx: \<open>post\<close> takes the
  session and the request body and gives the decoded answer, or the exception raised by
  the transport, by \<open>raise_for_status\<close> or by the decoder.
\<close>

definition payload :: "string \<Rightarrow> pyval list \<Rightarrow> pyval" where
  "payload profile_id step_list =
     JDict [(''profile_id'', JStr profile_id),
            (''steps'', JList step_list),
            (''options'', JDict [(''fail_on_selector_timeout'', JBool True),
                                 (''capture_console'', JBool True)])]"

definition run_automation ::
  "(session \<Rightarrow> pyval \<Rightarrow> exn + pyval) \<Rightarrow> AdsPowerClient \<Rightarrow> string \<Rightarrow> pyval list
     \<Rightarrow> (exn + pyval) \<times> AdsPowerClient" where
  "run_automation post self profile_id step_list =
     (let (cl, self') = get_client self
      in (post cl (payload profile_id step_list), self'))"

section \<open>Result records (models.py) and profiles (config.py)\<close>

text \<open>
  A profile is identified by \<open>id\<close> and may carry a \<open>label\<close>. The timestamps of a result
  are readings of the wall clock (\<open>now_utc()\<close>), kept as natural numbers.
\<close>

record ProfileConfig =
  id_p :: string
  label_p :: "string option"

record AuthorizationDetails =
  authorized :: bool
  display_name :: "string option"
  profile_serial :: "string option"
  raw_variables :: "(string \<times> pyval) list"

record ProfileCheckResult =
  profile_id :: string
  label :: "string option"
  success :: bool
  details :: "AuthorizationDetails option"
  error :: "string option"
  started_at :: nat
  finished_at :: nat
  raw_response :: pyval

section \<open>The authorization checker (checker.py)\<close>

record AuthorizationChecker =
  client_ac :: AdsPowerClient
  scenario :: DiscordAuthorizationScenario
  profiles :: "ProfileConfig list"
  concurrency :: int

text \<open>
  \<^verbatim>\<open>
  def __init__(self, client, scenario, profiles, concurrency=3):
      self._client = client
      self._scenario = scenario
      self._profiles = list(profiles)
      self._concurrency = max(1, concurrency)
  \<close>
\<close>

definition AuthorizationChecker_init ::
  "AdsPowerClient \<Rightarrow> DiscordAuthorizationScenario \<Rightarrow> ProfileConfig list \<Rightarrow> int
     \<Rightarrow> AuthorizationChecker" where
  "AuthorizationChecker_init cl sc ps c =
     \<lparr>client_ac = cl, scenario = sc, profiles = ps, concurrency = max 1 c\<rparr>"

text \<open>
  The body of the \<open>try\<close> block of \<open>_run_single\<close> after the gateway has answered:
  \<^verbatim>\<open>
  variables = _extract_variables(raw_response)
  details = AuthorizationDetails(
      authorized=_parse_bool(variables.get("service_authorized")),
      display_name=_coerce_optional_str(variables.get("service_display_name")),
      profile_serial=_coerce_optional_str(variables.get("profile_serial")),
      raw_variables=variables,
  )
  \<close>
\<close>

definition build_details :: "(pyval \<Rightarrow> string) \<Rightarrow> pyval \<Rightarrow> exn + AuthorizationDetails" where
  "build_details py_repr raw =
     (case extract_variables raw of
        Inl e \<Rightarrow> Inl e
      | Inr variables \<Rightarrow>
          Inr \<lparr>authorized = parse_bool (dict_get variables ''service_authorized''),
               display_name = coerce_optional_str py_repr (dict_get variables ''service_display_name''),
               profile_serial = coerce_optional_str py_repr (dict_get variables ''profile_serial''),
               raw_variables = variables\<rparr>)"

text \<open>
  What \<open>_run_single\<close> returns once the call of the gateway has ended with \<open>outcome\<close>:
  \<^verbatim>\<open>
  raw_response = {}; error = None; details = None; success = False
  async with semaphore:
      try:
          raw_response = await self._client.run_automation(...)
          variables = ...; details = ...
          success = True
      except Exception as exc:
          error = str(exc)
  finished_at = now_utc()
  return ProfileCheckResult(profile_id=profile.id, label=profile.label, success=success,
      details=details, error=error, started_at=started_at, finished_at=finished_at,
      raw_response=raw_response)
  \<close>
  When the gateway raises, \<open>raw_response\<close> is still the empty dict; when the interpreter
  raises, \<open>raw_response\<close> has been assigned and \<open>details\<close> has not.
\<close>

definition conclude ::
  "(pyval \<Rightarrow> string) \<Rightarrow> ProfileConfig \<Rightarrow> nat \<Rightarrow> exn + pyval \<Rightarrow> nat \<Rightarrow> ProfileCheckResult" where
  "conclude py_repr profile started outcome finished =
     (case outcome of
        Inl exc \<Rightarrow>
          \<lparr>profile_id = id_p profile, label = label_p profile, success = False,
           details = None, error = Some (str_exc exc),
           started_at = started, finished_at = finished, raw_response = JDict []\<rparr>
      | Inr raw \<Rightarrow>
          (case build_details py_repr raw of
             Inl exc \<Rightarrow>
               \<lparr>profile_id = id_p profile, label = label_p profile, success = False,
                details = None, error = Some (str_exc exc),
                started_at = started, finished_at = finished, raw_response = raw\<rparr>
           | Inr d \<Rightarrow>
               \<lparr>profile_id = id_p profile, label = label_p profile, success = True,
                details = Some d, error = None,
                started_at = started, finished_at = finished, raw_response = raw\<rparr>))"

subsection \<open>Tasks, the semaphore and the event loop\<close>

text \<open>
  \<open>run\<close> creates one task per profile and gathers them. A task of \<open>_run_single\<close> is
  suspended at two places: waiting for the semaphore and waiting for the gateway. Its
  stages are therefore
  \<^item> \<open>Created\<close>: the task exists and has not run yet;
  \<^item> \<open>Waiting t\<close>: \<open>started_at = t\<close> has been read and the task waits for the semaphore;
  \<^item> \<open>Running t out\<close>: the task holds a slot of the semaphore and its request is with
    the gateway, which will end with \<open>out\<close>;
  \<^item> \<open>Done r\<close>: the task has returned \<open>r\<close>.
  The answer of the remote service to the request of the task at position \<open>i\<close> is
  \<open>post i\<close>: the service may answer two equal requests differently.
\<close>

datatype stage =
    Created
  | Waiting nat
  | Running nat "exn + pyval"
  | Done ProfileCheckResult

record run_state =
  tasks :: "(ProfileConfig \<times> stage) list"
  semaphore :: int
  gateway :: AdsPowerClient

text \<open>
  \<^verbatim>\<open>
  semaphore = asyncio.Semaphore(self._concurrency)
  tasks = [asyncio.create_task(self._run_single(profile, semaphore))
           for profile in self._profiles]
  \<close>
\<close>

definition start :: "AuthorizationChecker \<Rightarrow> run_state" where
  "start self =
     \<lparr>tasks = map (\<lambda>profile. (profile, Created)) (profiles self),
      semaphore = concurrency self,
      gateway = client_ac self\<rparr>"

text \<open>
  One decision of the event loop: the task at position \<open>i\<close> is resumed while the clock
  reads \<open>now\<close>. A task that waits for the semaphore goes on only if a slot is free
  (\<open>Semaphore.acquire\<close> decrements the counter, leaving the \<open>async with\<close> block
  increments it); there the request is built and sent by \<open>run_automation\<close>.
  Resuming a finished task, or a position that holds no task, changes nothing.
\<close>

definition advance ::
  "(pyval \<Rightarrow> string) \<Rightarrow> (nat \<Rightarrow> session \<Rightarrow> pyval \<Rightarrow> exn + pyval) \<Rightarrow> DiscordAuthorizationScenario
     \<Rightarrow> nat \<times> nat \<Rightarrow> run_state \<Rightarrow> run_state" where
  "advance py_repr post sc ev st =
     (let i = fst ev; now = snd ev
      in if i < length (tasks st) then
           (let profile = fst (tasks st ! i)
            in case snd (tasks st ! i) of
                 Created \<Rightarrow> st\<lparr>tasks := (tasks st)[i := (profile, Waiting now)]\<rparr>
               | Waiting t \<Rightarrow>
                   if 0 < semaphore st then
                     (let (out, gw) = run_automation (post i) (gateway st) (id_p profile) (to_payload sc)
                      in st\<lparr>tasks := (tasks st)[i := (profile, Running t out)],
                            semaphore := semaphore st - 1,
                            gateway := gw\<rparr>)
                   else st
               | Running t out \<Rightarrow>
                   st\<lparr>tasks := (tasks st)[i := (profile, Done (conclude py_repr profile t out now))],
                      semaphore := semaphore st + 1\<rparr>
               | Done r \<Rightarrow> st)
         else st)"

text \<open>
  \<open>asyncio.gather(*tasks)\<close>: the results of the tasks in the order of the tasks, once
  every task has returned.
\<close>

fun gather :: "(ProfileConfig \<times> stage) list \<Rightarrow> ProfileCheckResult list option" where
  "gather [] = Some []"
| "gather ((p, Done r) # ts) = (case gather ts of None \<Rightarrow> None | Some rs \<Rightarrow> Some (r # rs))"
| "gather (_ # ts) = None"

text \<open>
  \<open>run\<close> under a schedule, the list of the event loop's decisions. The value is \<open>None\<close>
  when the schedule ends before every task has returned.
\<close>

definition run ::
  "(pyval \<Rightarrow> string) \<Rightarrow> (nat \<Rightarrow> session \<Rightarrow> pyval \<Rightarrow> exn + pyval) \<Rightarrow> AuthorizationChecker
     \<Rightarrow> (nat \<times> nat) list \<Rightarrow> ProfileCheckResult list option" where
  "run py_repr post self schedule =
     gather (tasks (fold (advance py_repr post (scenario self)) schedule (start self)))"

section \<open>Notions used in the proofs\<close>

text \<open>
  The steps a task still has to take, and the slots of the semaphore that the tasks hold.
\<close>

fun weight :: "stage \<Rightarrow> nat" where
  "weight Created = 3"
| "weight (Waiting _) = 2"
| "weight (Running _ _) = 1"
| "weight (Done _) = 0"

definition remaining :: "(ProfileConfig \<times> stage) list \<Rightarrow> nat" where
  "remaining ts = sum_list (map (\<lambda>x. weight (snd x)) ts)"

fun holding :: "stage \<Rightarrow> nat" where
  "holding (Running _ _) = 1"
| "holding _ = 0"

definition held :: "(ProfileConfig \<times> stage) list \<Rightarrow> nat" where
  "held ts = sum_list (map (\<lambda>x. holding (snd x)) ts)"

text \<open>
  The answer of the gateway to the task at position \<open>i\<close>: the remote service's answer to
  the request built from the profile at that position and the scenario, sent through the
  session of the checker's client.
\<close>

definition answer ::
  "(nat \<Rightarrow> session \<Rightarrow> pyval \<Rightarrow> exn + pyval) \<Rightarrow> AuthorizationChecker \<Rightarrow> nat \<Rightarrow> exn + pyval" where
  "answer post self i =
     post i (fst (get_client (client_ac self)))
       (payload (id_p (profiles self ! i)) (to_payload (scenario self)))"

text \<open>
  What holds of every task during a run: a request in flight ends with the gateway's
  answer, and a returned result is \<open>conclude\<close> of that answer.
\<close>

fun stage_ok ::
  "(pyval \<Rightarrow> string) \<Rightarrow> ProfileConfig \<Rightarrow> exn + pyval \<Rightarrow> stage \<Rightarrow> bool" where
  "stage_ok rp p a (Running t out) = (out = a)"
| "stage_ok rp p a (Done r) = (r = conclude rp p (started_at r) a (finished_at r))"
| "stage_ok rp p a _ = True"

definition state_ok ::
  "(pyval \<Rightarrow> string) \<Rightarrow> (nat \<Rightarrow> session \<Rightarrow> pyval \<Rightarrow> exn + pyval) \<Rightarrow> AuthorizationChecker
     \<Rightarrow> run_state \<Rightarrow> bool" where
  "state_ok rp post self st =
     (map fst (tasks st) = profiles self
      \<and> fst (get_client (gateway st)) = fst (get_client (client_ac self))
      \<and> (\<forall>i < length (tasks st).
            stage_ok rp (profiles self ! i) (answer post self i) (snd (tasks st ! i))))"

text \<open>A result with its two clock readings erased, and the keys of a \<open>dict\<close>.\<close>

definition without_timing :: "ProfileCheckResult \<Rightarrow> ProfileCheckResult" where
  "without_timing r = r\<lparr>started_at := 0, finished_at := 0\<rparr>"

fun keys_of :: "pyval \<Rightarrow> string list" where
  "keys_of (JDict d) = map fst d"
| "keys_of _ = []"

fun the_dict :: "pyval \<Rightarrow> (string \<times> pyval) list" where
  "the_dict (JDict d) = d"
| "the_dict _ = []"

section \<open>Sample inputs\<close>

text \<open>
  A client as the command line creates it, a scenario of two steps and two profiles;
  a gateway whose every call times out (\<open>str\<close> of an \<open>httpx.ReadTimeout\<close> is the empty
  string), one that always answers with Bob's variables, and one that refuses the
  connection of the second task; a schedule that runs the tasks one after the other and
  one that overlaps them.
\<close>

definition demo_repr :: "pyval \<Rightarrow> string" where
  "demo_repr v = []"

definition demo_client :: AdsPowerClient where
  "demo_client = AdsPowerClient_init ''http://local.adspower.net:50325/'' None (Finite 30)"

definition demo_scenario :: DiscordAuthorizationScenario where
  "demo_scenario = \<lparr>steps = [\<lparr>type_s = ''newPage'', config = []\<rparr>,
                             \<lparr>type_s = ''closeBrowser'', config = []\<rparr>]\<rparr>"

definition demo_profiles :: "ProfileConfig list" where
  "demo_profiles = [\<lparr>id_p = ''p1'', label_p = Some ''first''\<rparr>, \<lparr>id_p = ''p2'', label_p = None\<rparr>]"

definition timeout_post :: "nat \<Rightarrow> session \<Rightarrow> pyval \<Rightarrow> exn + pyval" where
  "timeout_post i s body = Inl (LibraryError [])"

definition bob_post :: "nat \<Rightarrow> session \<Rightarrow> pyval \<Rightarrow> exn + pyval" where
  "bob_post i s body =
     Inr (JDict [(''data'', JDict [(''variables'',
            JDict [(''service_authorized'', JStr ''true''),
                   (''service_display_name'', JStr '' Bob '')])])])"

definition flaky_post :: "nat \<Rightarrow> session \<Rightarrow> pyval \<Rightarrow> exn + pyval" where
  "flaky_post i s body =
     (if i = 1 then Inl (LibraryError ''connection refused'') else bob_post i s body)"

definition one_by_one :: "(nat \<times> nat) list" where
  "one_by_one = [(0, 10), (0, 11), (0, 12), (1, 13), (1, 14), (1, 15)]"

definition overlapping :: "(nat \<times> nat) list" where
  "overlapping = [(0, 1), (1, 2), (1, 3), (0, 4), (1, 5), (0, 6)]"

definition failing_aclose :: "session \<Rightarrow> exn option" where
  "failing_aclose s = Some (LibraryError ''pool is busy'')"

definition quiet_aclose :: "session \<Rightarrow> exn option" where
  "quiet_aclose s = None"

text \<open>A gateway whose answer holds \<open>null\<close> under \<open>"data"\<close>, so that the interpreter raises.\<close>

definition null_data_post :: "nat \<Rightarrow> session \<Rightarrow> pyval \<Rightarrow> exn + pyval" where
  "null_data_post i s body = Inr (JDict [(''code'', JInt 0), (''data'', JNull)])"

section \<open>Lemmas\<close>

lemma strip_prefix:
  "dropWhile isspace s = strip s @ rev (takeWhile isspace (rev (dropWhile isspace s)))"
proof -
  have "rev (takeWhile isspace (rev (dropWhile isspace s)) @ dropWhile isspace (rev (dropWhile isspace s)))
        = rev (rev (dropWhile isspace s))"
    by (simp only: takeWhile_dropWhile_id)
  then show ?thesis
    by (simp only: rev_append rev_rev_ident strip_def)
qed

lemma strip_decomp:
  "\<exists>a b. s = a @ strip s @ b \<and> (\<forall>c\<in>set a. isspace c) \<and> (\<forall>c\<in>set b. isspace c)"
proof (intro exI conjI)
  have "s = takeWhile isspace s @ dropWhile isspace s"
    by (simp only: takeWhile_dropWhile_id)
  also have "dropWhile isspace s = strip s @ rev (takeWhile isspace (rev (dropWhile isspace s)))"
    by (rule strip_prefix)
  finally show "s = takeWhile isspace s @ strip s @ rev (takeWhile isspace (rev (dropWhile isspace s)))" .
  show "\<forall>c\<in>set (takeWhile isspace s). isspace c"
    by (blast dest: set_takeWhileD)
  show "\<forall>c\<in>set (rev (takeWhile isspace (rev (dropWhile isspace s)))). isspace c"
    by (auto dest: set_takeWhileD)
qed

lemma strip_unique:
  assumes "\<forall>c\<in>set a. isspace c" and "\<forall>c\<in>set b. isspace c"
    and "t \<noteq> []" and "\<not> isspace (hd t)" and "\<not> isspace (last t)"
  shows "strip (a @ t @ b) = t"
proof -
  from assms(3) obtain x xs where t: "t = x # xs" by (cases t) auto
  with assms(4) have x: "\<not> isspace x" by simp
  from assms(1) have "dropWhile isspace (a @ t @ b) = dropWhile isspace (t @ b)"
    by (simp add: dropWhile_append)
  also have "\<dots> = t @ b" using t x by simp
  finally have d: "dropWhile isspace (a @ t @ b) = t @ b" .
  from assms(3) obtain ys y where t': "t = ys @ [y]" by (cases t rule: rev_cases) auto
  with assms(5) have y: "\<not> isspace y" by simp
  have "dropWhile isspace (rev (t @ b)) = dropWhile isspace (rev b @ rev t)" by simp
  also from assms(2) have "\<dots> = dropWhile isspace (rev t)"
    by (simp add: dropWhile_append)
  also have "\<dots> = rev t" using t' y by simp
  finally have "dropWhile isspace (rev (t @ b)) = rev t" .
  with d show ?thesis by (simp add: strip_def)
qed

lemma strip_hd: "strip s \<noteq> [] \<Longrightarrow> \<not> isspace (hd (strip s))"
proof -
  assume ne: "strip s \<noteq> []"
  have "hd (dropWhile isspace s) = hd (strip s @ rev (takeWhile isspace (rev (dropWhile isspace s))))"
    using strip_prefix [of s] by (rule arg_cong)
  also from ne have "\<dots> = hd (strip s)"
    by simp
  finally have eq: "hd (dropWhile isspace s) = hd (strip s)" .
  have "dropWhile isspace s \<noteq> []"
  proof
    assume "dropWhile isspace s = []"
    then have "strip s = []"
      unfolding strip_def by (simp only: rev.simps dropWhile.simps)
    with ne show False by simp
  qed
  then have "\<not> isspace (hd (dropWhile isspace s))" by (rule hd_dropWhile)
  with eq show ?thesis by simp
qed

lemma strip_last: "strip s \<noteq> [] \<Longrightarrow> \<not> isspace (last (strip s))"
  unfolding strip_def
  by (metis hd_dropWhile last_rev rev_is_Nil_conv)

lemma strip_all_space: "(\<forall>c\<in>set s. isspace c) \<Longrightarrow> strip s = []"
proof -
  assume "\<forall>c\<in>set s. isspace c"
  then have "dropWhile isspace s = []" by simp
  then show ?thesis unfolding strip_def by (simp only: rev.simps dropWhile.simps)
qed

lemma str_int_42: "str_int 42 = ''42''"
  by code_simp

lemma strip_42: "strip ''42'' = ''42''"
  by code_simp

lemma sum_list_map_update:
  "i < length xs \<Longrightarrow>
   sum_list (map f (xs[i := y])) + f (xs ! i) = sum_list (map f xs) + (f y :: nat)"
proof (induction xs arbitrary: i)
  case Nil
  then show ?case by simp
next
  case (Cons x xs)
  then show ?case by (cases i) auto
qed

lemma map_fst_update: "i < length xs \<Longrightarrow> map fst (xs[i := (fst (xs ! i), s)]) = map fst xs"
proof (induction xs arbitrary: i)
  case Nil
  then show ?case by simp
next
  case (Cons x xs)
  then show ?case by (cases i) auto
qed

lemma get_client_again: "fst (get_client (snd (get_client g))) = fst (get_client g)"
  by (simp add: get_client_def Let_def split: option.splits)

lemma run_automation_eq:
  "run_automation post g pid ss = (post (fst (get_client g)) (payload pid ss), snd (get_client g))"
  by (simp add: run_automation_def split: prod.splits)

lemma conclude_times:
  "started_at (conclude rp p t0 out t1) = t0 \<and> finished_at (conclude rp p t0 out t1) = t1"
  by (simp add: conclude_def split: sum.splits)

lemma length_advance: "length (tasks (advance rp post sc ev st)) = length (tasks st)"
  by (simp add: advance_def Let_def run_automation_eq split: stage.splits)

lemma state_ok_start: "state_ok rp post self (start self)"
  by (simp add: state_ok_def start_def comp_def)

lemma advance_out_of_range:
  "\<not> i < length (tasks st) \<Longrightarrow> advance rp post sc (i, now) st = st"
  by (simp add: advance_def)

lemma advance_Created:
  "i < length (tasks st) \<Longrightarrow> snd (tasks st ! i) = Created \<Longrightarrow>
   advance rp post sc (i, now) st = st\<lparr>tasks := (tasks st)[i := (fst (tasks st ! i), Waiting now)]\<rparr>"
  by (simp add: advance_def Let_def)

lemma advance_Waiting_blocked:
  "i < length (tasks st) \<Longrightarrow> snd (tasks st ! i) = Waiting t \<Longrightarrow> \<not> 0 < semaphore st \<Longrightarrow>
   advance rp post sc (i, now) st = st"
  by (simp add: advance_def Let_def)

lemma advance_Waiting:
  "i < length (tasks st) \<Longrightarrow> snd (tasks st ! i) = Waiting t \<Longrightarrow> 0 < semaphore st \<Longrightarrow>
   advance rp post sc (i, now) st =
     st\<lparr>tasks := (tasks st)[i := (fst (tasks st ! i),
              Running t (post i (fst (get_client (gateway st)))
                          (payload (id_p (fst (tasks st ! i))) (to_payload sc))))],
        semaphore := semaphore st - 1,
        gateway := snd (get_client (gateway st))\<rparr>"
  by (simp add: advance_def Let_def run_automation_eq)

lemma advance_Running:
  "i < length (tasks st) \<Longrightarrow> snd (tasks st ! i) = Running t out \<Longrightarrow>
   advance rp post sc (i, now) st =
     st\<lparr>tasks := (tasks st)[i := (fst (tasks st ! i),
              Done (conclude rp (fst (tasks st ! i)) t out now))],
        semaphore := semaphore st + 1\<rparr>"
  by (simp add: advance_def Let_def)

lemma advance_Done:
  "i < length (tasks st) \<Longrightarrow> snd (tasks st ! i) = Done r \<Longrightarrow>
   advance rp post sc (i, now) st = st"
  by (simp add: advance_def Let_def)

lemma state_ok_update:
  assumes ok: "state_ok rp post self st"
    and i: "i < length (tasks st)"
    and s: "stage_ok rp (profiles self ! i) (answer post self i) s"
    and g: "fst (get_client g) = fst (get_client (client_ac self))"
  shows "state_ok rp post self
           (st\<lparr>tasks := (tasks st)[i := (fst (tasks st ! i), s)], semaphore := k, gateway := g\<rparr>)"
  using assms by (auto simp: state_ok_def map_fst_update nth_list_update)

lemma state_ok_advance:
  assumes "state_ok rp post self st"
  shows "state_ok rp post self (advance rp post (scenario self) ev st)"
proof -
  obtain i now where ev: "ev = (i, now)" by (cases ev)
  from assms have fs: "map fst (tasks st) = profiles self"
    and gw: "fst (get_client (gateway st)) = fst (get_client (client_ac self))"
    by (simp_all add: state_ok_def)
  show ?thesis
  proof (cases "i < length (tasks st)")
    case False
    with assms ev show ?thesis by (simp add: advance_out_of_range)
  next
    case True
    from fs True have p: "fst (tasks st ! i) = profiles self ! i"
      by (metis nth_map)
    from assms True
    have cur: "stage_ok rp (profiles self ! i) (answer post self i) (snd (tasks st ! i))"
      by (simp add: state_ok_def)
    show ?thesis
    proof (cases "snd (tasks st ! i)")
      case Created
      have "state_ok rp post self
              (st\<lparr>tasks := (tasks st)[i := (fst (tasks st ! i), Waiting now)],
                  semaphore := semaphore st, gateway := gateway st\<rparr>)"
        using assms True by (rule state_ok_update) (simp_all add: gw)
      with Created True ev show ?thesis by (simp add: advance_Created)
    next
      case (Waiting t)
      show ?thesis
      proof (cases "0 < semaphore st")
        case False
        with Waiting True ev assms show ?thesis by (simp add: advance_Waiting_blocked)
      next
        case open_slot: True
        have "state_ok rp post self
                (st\<lparr>tasks := (tasks st)[i := (fst (tasks st ! i),
                      Running t (post i (fst (get_client (gateway st)))
                         (payload (id_p (fst (tasks st ! i))) (to_payload (scenario self)))))],
                    semaphore := semaphore st - 1, gateway := snd (get_client (gateway st))\<rparr>)"
          using assms True by (rule state_ok_update) (simp_all add: gw p answer_def get_client_again)
        with Waiting True open_slot ev show ?thesis by (simp add: advance_Waiting)
      qed
    next
      case (Running t out)
      with cur have out: "out = answer post self i" by simp
      have "state_ok rp post self
              (st\<lparr>tasks := (tasks st)[i := (fst (tasks st ! i),
                    Done (conclude rp (fst (tasks st ! i)) t out now))],
                  semaphore := semaphore st + 1, gateway := gateway st\<rparr>)"
        using assms True by (rule state_ok_update) (simp_all add: gw p out conclude_times)
      with Running True ev show ?thesis by (simp add: advance_Running)
    next
      case (Done r)
      with True ev assms show ?thesis by (simp add: advance_Done)
    qed
  qed
qed

lemma state_ok_fold:
  "state_ok rp post self st \<Longrightarrow>
   state_ok rp post self (fold (advance rp post (scenario self)) sched st)"
  by (induction sched arbitrary: st) (simp_all add: state_ok_advance)

lemma gather_Some:
  "gather ts = Some rs \<Longrightarrow>
   length rs = length ts \<and> (\<forall>i < length ts. snd (ts ! i) = Done (rs ! i))"
proof (induction ts arbitrary: rs rule: gather.induct)
  case 1
  then show ?case by simp
next
  case (2 p r ts)
  then obtain rs' where rs': "gather ts = Some rs'" "rs = r # rs'"
    by (auto split: option.splits)
  with 2 have "length rs' = length ts \<and> (\<forall>i < length ts. snd (ts ! i) = Done (rs' ! i))"
    by simp
  with rs' show ?case by (auto simp: nth_Cons split: nat.splits)
qed simp_all

lemma run_results:
  assumes "run rp post self sched = Some rs"
  shows "length rs = length (profiles self) \<and>
         (\<forall>i < length (profiles self).
            rs ! i = conclude rp (profiles self ! i) (started_at (rs ! i)) (answer post self i)
                       (finished_at (rs ! i)))"
proof -
  let ?st = "fold (advance rp post (scenario self)) sched (start self)"
  have ok: "state_ok rp post self ?st"
    by (rule state_ok_fold) (rule state_ok_start)
  from assms have g: "gather (tasks ?st) = Some rs" by (simp add: run_def)
  from ok have len: "length (tasks ?st) = length (profiles self)"
    by (metis state_ok_def length_map)
  from gather_Some [OF g] have l: "length rs = length (tasks ?st)"
    and d: "\<And>i. i < length (tasks ?st) \<Longrightarrow> snd (tasks ?st ! i) = Done (rs ! i)"
    by simp_all
  show ?thesis
  proof (intro conjI allI impI)
    show "length rs = length (profiles self)" using l len by simp
  next
    fix i assume i: "i < length (profiles self)"
    with len have i': "i < length (tasks ?st)" by simp
    from ok i' have "stage_ok rp (profiles self ! i) (answer post self i) (snd (tasks ?st ! i))"
      by (simp add: state_ok_def)
    with d [OF i'] show "rs ! i = conclude rp (profiles self ! i) (started_at (rs ! i))
        (answer post self i) (finished_at (rs ! i))"
      by simp
  qed
qed

lemma remaining_update:
  "i < length ts \<Longrightarrow>
   remaining (ts[i := (p, s)]) + weight (snd (ts ! i)) = remaining ts + weight s"
  unfolding remaining_def
  using sum_list_map_update [of i ts "\<lambda>x. weight (snd x)" "(p, s)"] by simp

lemma held_update:
  "i < length ts \<Longrightarrow>
   held (ts[i := (p, s)]) + holding (snd (ts ! i)) = held ts + holding s"
  unfolding held_def
  using sum_list_map_update [of i ts "\<lambda>x. holding (snd x)" "(p, s)"] by simp

lemma sem_advance:
  "semaphore (advance rp post sc ev st) + int (held (tasks (advance rp post sc ev st)))
   = semaphore st + int (held (tasks st))"
proof -
  obtain i now where ev: "ev = (i, now)" by (cases ev)
  show ?thesis
  proof (cases "i < length (tasks st)")
    case False
    with ev show ?thesis by (simp add: advance_out_of_range)
  next
    case True
    show ?thesis
    proof (cases "snd (tasks st ! i)")
      case Created
      with True ev held_update [OF True, of "fst (tasks st ! i)" "Waiting now"]
      show ?thesis by (simp add: advance_Created)
    next
      case (Waiting t)
      show ?thesis
      proof (cases "0 < semaphore st")
        case False
        with Waiting True ev show ?thesis by (simp add: advance_Waiting_blocked)
      next
        case open_slot: True
        with Waiting True ev
          held_update [OF True, of "fst (tasks st ! i)"
            "Running t (post i (fst (get_client (gateway st)))
                          (payload (id_p (fst (tasks st ! i))) (to_payload sc)))"]
        show ?thesis by (simp add: advance_Waiting)
      qed
    next
      case (Running t out)
      with True ev
        held_update [OF True, of "fst (tasks st ! i)"
          "Done (conclude rp (fst (tasks st ! i)) t out now)"]
      show ?thesis by (simp add: advance_Running)
    next
      case (Done r)
      with True ev show ?thesis by (simp add: advance_Done)
    qed
  qed
qed

lemma sem_fold:
  "semaphore (fold (advance rp post sc) sched st)
     + int (held (tasks (fold (advance rp post sc) sched st)))
   = semaphore st + int (held (tasks st))"
  by (induction sched arbitrary: st) (simp_all add: sem_advance)

lemma held_start: "held (tasks (start self)) = 0"
  by (simp add: held_def start_def comp_def)

lemma held_zero: "held ts = 0 \<Longrightarrow> i < length ts \<Longrightarrow> holding (snd (ts ! i)) = 0"
  by (simp add: held_def)

lemma remaining_pos: "0 < remaining ts \<Longrightarrow> \<exists>i < length ts. 0 < weight (snd (ts ! i))"
proof (induction ts)
  case Nil
  then show ?case by (simp add: remaining_def)
next
  case (Cons a ts)
  show ?case
  proof (cases "0 < weight (snd a)")
    case True
    then have "0 < length (a # ts) \<and> 0 < weight (snd ((a # ts) ! 0))" by simp
    then show ?thesis by blast
  next
    case False
    with Cons.prems have "0 < remaining ts" by (simp add: remaining_def)
    from Cons.IH [OF this] obtain i where "i < length ts" "0 < weight (snd (ts ! i))" by blast
    then have "Suc i < length (a # ts) \<and> 0 < weight (snd ((a # ts) ! Suc i))" by simp
    then show ?thesis by blast
  qed
qed

lemma progress_step:
  assumes free: "0 < semaphore st + int (held (tasks st))"
    and pos: "0 < remaining (tasks st)"
  shows "\<exists>ev. remaining (tasks (advance rp post sc ev st)) < remaining (tasks st)"
proof (cases "\<exists>i < length (tasks st). holding (snd (tasks st ! i)) = 1")
  case True
  then obtain i where i: "i < length (tasks st)" and h: "holding (snd (tasks st ! i)) = 1"
    by blast
  then obtain t out where r: "snd (tasks st ! i) = Running t out"
    by (cases "snd (tasks st ! i)") auto
  from remaining_update [OF i, of "fst (tasks st ! i)" "Done (conclude rp (fst (tasks st ! i)) t out 0)"] r
  have "remaining (tasks (advance rp post sc (i, 0) st)) < remaining (tasks st)"
    using i by (simp add: advance_Running)
  then show ?thesis by blast
next
  case False
  then have none: "\<And>i. i < length (tasks st) \<Longrightarrow> holding (snd (tasks st ! i)) = 0"
    by (metis holding.elims)
  have "held (tasks st) = 0"
    unfolding held_def using none by (simp add: in_set_conv_nth) (metis in_set_conv_nth snd_conv surj_pair)
  with free have slot: "0 < semaphore st" by simp
  from remaining_pos [OF pos] obtain i where i: "i < length (tasks st)"
    and w: "0 < weight (snd (tasks st ! i))" by blast
  show ?thesis
  proof (cases "snd (tasks st ! i)")
    case Created
    from remaining_update [OF i, of "fst (tasks st ! i)" "Waiting 0"] Created
    have "remaining (tasks (advance rp post sc (i, 0) st)) < remaining (tasks st)"
      using i by (simp add: advance_Created)
    then show ?thesis by blast
  next
    case (Waiting t)
    from remaining_update [OF i, of "fst (tasks st ! i)"
        "Running t (post i (fst (get_client (gateway st)))
                          (payload (id_p (fst (tasks st ! i))) (to_payload sc)))"] Waiting
    have "remaining (tasks (advance rp post sc (i, 0) st)) < remaining (tasks st)"
      using i slot by (simp add: advance_Waiting)
    then show ?thesis by blast
  next
    case (Running t out)
    with none [OF i] show ?thesis by simp
  next
    case (Done r)
    with w show ?thesis by simp
  qed
qed

lemma drain:
  "0 < semaphore st + int (held (tasks st)) \<Longrightarrow>
   \<exists>more. remaining (tasks (fold (advance rp post sc) more st)) = 0"
proof (induction "remaining (tasks st)" arbitrary: st rule: less_induct)
  case less
  show ?case
  proof (cases "remaining (tasks st) = 0")
    case True
    then have "remaining (tasks (fold (advance rp post sc) [] st)) = 0" by simp
    then show ?thesis by blast
  next
    case False
    then have "0 < remaining (tasks st)" by simp
    from progress_step [OF less.prems this]
    obtain ev where ev: "remaining (tasks (advance rp post sc ev st)) < remaining (tasks st)"
      by blast
    from less.prems have "0 < semaphore (advance rp post sc ev st)
        + int (held (tasks (advance rp post sc ev st)))"
      by (simp add: sem_advance)
    from less.hyps [OF ev this] obtain more
      where "remaining (tasks (fold (advance rp post sc) more (advance rp post sc ev st))) = 0"
      by blast
    then have "remaining (tasks (fold (advance rp post sc) (ev # more) st)) = 0" by simp
    then show ?thesis by blast
  qed
qed

lemma gather_done: "remaining ts = 0 \<Longrightarrow> \<exists>rs. gather ts = Some rs"
proof (induction ts rule: gather.induct)
  case 1
  then show ?case by simp
next
  case (2 p r ts)
  then show ?case by (auto simp: remaining_def)
qed (simp_all add: remaining_def)

lemma run_completes:
  assumes "1 \<le> concurrency self"
  shows "\<exists>more rs. run rp post self (sched @ more) = Some rs"
proof -
  let ?st = "fold (advance rp post (scenario self)) sched (start self)"
  have "semaphore ?st + int (held (tasks ?st)) = concurrency self"
    by (simp add: sem_fold held_start) (simp add: start_def)
  with assms have "0 < semaphore ?st + int (held (tasks ?st))" by simp
  from drain [OF this] obtain more
    where "remaining (tasks (fold (advance rp post (scenario self)) more ?st)) = 0"
    by blast
  from gather_done [OF this] obtain rs
    where "gather (tasks (fold (advance rp post (scenario self)) more ?st)) = Some rs"
    by blast
  then have "run rp post self (sched @ more) = Some rs"
    by (simp add: run_def)
  then show ?thesis by blast
qed

lemma conclude_without_timing:
  "without_timing (conclude rp p t0 a t1) = conclude rp p 0 a 0"
  by (simp add: conclude_def without_timing_def split: sum.splits)

lemma conclude_profile:
  "profile_id (conclude rp p t0 a t1) = id_p p \<and> label (conclude rp p t0 a t1) = label_p p"
  by (simp add: conclude_def split: sum.splits)

lemma conclude_outcome:
  "success (conclude rp p t0 a t1) = success (conclude rp p 0 a 0)
   \<and> details (conclude rp p t0 a t1) = details (conclude rp p 0 a 0)
   \<and> error (conclude rp p t0 a t1) = error (conclude rp p 0 a 0)"
  by (simp add: conclude_def split: sum.splits)

lemma conclude_presence:
  "(details (conclude rp p t0 a t1) \<noteq> None) = success (conclude rp p t0 a t1)
   \<and> (error (conclude rp p t0 a t1) \<noteq> None) = (\<not> success (conclude rp p t0 a t1))"
  by (simp add: conclude_def split: sum.splits)

lemma conclude_gateway_raises:
  "\<not> success (conclude rp p t0 (Inl exc) t1) \<and> details (conclude rp p t0 (Inl exc) t1) = None
   \<and> error (conclude rp p t0 (Inl exc) t1) = Some (str_exc exc)
   \<and> raw_response (conclude rp p t0 (Inl exc) t1) = JDict []"
  by (simp add: conclude_def)

lemma conclude_interpreter_raises:
  "build_details rp raw = Inl exc \<Longrightarrow>
   \<not> success (conclude rp p t0 (Inr raw) t1) \<and> details (conclude rp p t0 (Inr raw) t1) = None
   \<and> error (conclude rp p t0 (Inr raw) t1) = Some (str_exc exc)
   \<and> raw_response (conclude rp p t0 (Inr raw) t1) = raw"
  by (simp add: conclude_def)

lemma conclude_error_text:
  "\<not> success (conclude rp p t0 a t1) \<Longrightarrow> \<exists>exc. error (conclude rp p t0 a t1) = Some (str_exc exc)"
  by (auto simp: conclude_def split: sum.splits)

lemma init_fields:
  "profiles (AuthorizationChecker_init cl sc ps c) = ps
   \<and> scenario (AuthorizationChecker_init cl sc ps c) = sc
   \<and> client_ac (AuthorizationChecker_init cl sc ps c) = cl
   \<and> concurrency (AuthorizationChecker_init cl sc ps c) = max 1 c"
  by (simp add: AuthorizationChecker_init_def)

lemma answer_init:
  "answer post (AuthorizationChecker_init cl sc ps c) i = answer post (AuthorizationChecker_init cl sc ps c') i"
  by (simp add: answer_def init_fields)

lemma answer_agree: "post' i = post i \<Longrightarrow> answer post' self i = answer post self i"
  by (simp add: answer_def)

lemma result_outcome:
  assumes "r = conclude rp p (started_at r) a (finished_at r)"
  shows "success r = success (conclude rp p 0 a 0)
     \<and> details r = details (conclude rp p 0 a 0)
     \<and> error r = error (conclude rp p 0 a 0)"
proof -
  from assms obtain t0 t1 where r: "r = conclude rp p t0 a t1" by blast
  show ?thesis unfolding r by (rule conclude_outcome)
qed

lemma extract_variables_mapping_data:
  "map_of r ''data'' = None \<or> (\<exists>d. map_of r ''data'' = Some (JDict d)) \<Longrightarrow>
   extract_variables (JDict r) =
     Inr (case dict_get (case dict_get_default r ''data'' (JDict []) of JDict d \<Rightarrow> d | _ \<Rightarrow> []) ''variables'' of
            JDict vs \<Rightarrow> vs
          | _ \<Rightarrow> (case dict_get r ''variables'' of JDict ws \<Rightarrow> ws | _ \<Rightarrow> []))"
  by (auto simp: extract_variables_def attr_get_def dict_get_default_def dict_get_def
      split: option.splits pyval.splits)

lemma conclude_succeeds:
  "build_details rp raw = Inr d \<Longrightarrow>
   success (conclude rp p t0 (Inr raw) t1) \<and> details (conclude rp p t0 (Inr raw) t1) = Some d
   \<and> error (conclude rp p t0 (Inr raw) t1) = None
   \<and> raw_response (conclude rp p t0 (Inr raw) t1) = raw"
  by (simp add: conclude_def)

section \<open>The claims\<close>

text \<open>
  C1. For every list of profiles, \<open>AuthorizationChecker.run()\<close> returns, and the list it
  returns has exactly one result per profile, in the order of the profiles:
  \<open>results[i].profile_id = profiles[i].id\<close> for every \<open>i\<close>, however the event loop
  interleaves the tasks and however many of them fail. Every schedule can be continued
  to one under which \<open>run\<close> returns.
\<close>

theorem run_one_result_per_profile:
  "(\<forall>sched. \<exists>more rs. run rp post (AuthorizationChecker_init cl sc ps c) (sched @ more) = Some rs)
   \<and> (run rp post (AuthorizationChecker_init cl sc ps c) sched = Some rs \<longrightarrow>
        length rs = length ps
        \<and> (\<forall>i < length ps. profile_id (rs ! i) = id_p (ps ! i))
        \<and> map profile_id rs = map id_p ps)"
proof (rule conjI)
  have "1 \<le> concurrency (AuthorizationChecker_init cl sc ps c)" by (simp add: init_fields)
  then show "\<forall>sched. \<exists>more rs. run rp post (AuthorizationChecker_init cl sc ps c) (sched @ more) = Some rs"
    by (blast intro: run_completes)
next
  show "run rp post (AuthorizationChecker_init cl sc ps c) sched = Some rs \<longrightarrow>
        length rs = length ps
        \<and> (\<forall>i < length ps. profile_id (rs ! i) = id_p (ps ! i))
        \<and> map profile_id rs = map id_p ps"
  proof (rule impI)
    assume r: "run rp post (AuthorizationChecker_init cl sc ps c) sched = Some rs"
    from run_results [OF r] have len: "length rs = length ps"
      and each: "\<And>i. i < length ps \<Longrightarrow>
          rs ! i = conclude rp (ps ! i) (started_at (rs ! i))
                     (answer post (AuthorizationChecker_init cl sc ps c) i) (finished_at (rs ! i))"
      by (simp_all add: init_fields)
    have ids: "\<forall>i < length ps. profile_id (rs ! i) = id_p (ps ! i)"
    proof (intro allI impI)
      fix i assume "i < length ps"
      from each [OF this] show "profile_id (rs ! i) = id_p (ps ! i)"
        by (metis conclude_profile)
    qed
    from len ids have "map profile_id rs = map id_p ps"
      by (simp add: list_eq_iff_nth_eq)
    with len ids show "length rs = length ps
        \<and> (\<forall>i < length ps. profile_id (rs ! i) = id_p (ps ! i))
        \<and> map profile_id rs = map id_p ps"
      by blast
  qed
qed

theorem run_one_result_per_profile_witness:
  "run demo_repr flaky_post (AuthorizationChecker_init demo_client demo_scenario demo_profiles 2) overlapping \<noteq> None
   \<and> length (the (run demo_repr flaky_post
         (AuthorizationChecker_init demo_client demo_scenario demo_profiles 2) overlapping)) = 2
   \<and> map profile_id (the (run demo_repr flaky_post
         (AuthorizationChecker_init demo_client demo_scenario demo_profiles 2) overlapping)) = [''p1'', ''p2'']"
proof -
  have "run demo_repr flaky_post (AuthorizationChecker_init demo_client demo_scenario demo_profiles 2) overlapping \<noteq> None"
    by code_simp
  then obtain rs where rs: "run demo_repr flaky_post
      (AuthorizationChecker_init demo_client demo_scenario demo_profiles 2) overlapping = Some rs"
    by blast
  with run_one_result_per_profile [of demo_repr flaky_post demo_client demo_scenario demo_profiles 2 overlapping rs]
  have "length rs = length demo_profiles \<and> map profile_id rs = map id_p demo_profiles"
    by blast
  with rs show ?thesis by (simp add: demo_profiles_def)
qed

text \<open>
  C2. \<open>_extract_variables\<close> on a response whose \<open>"data"\<close> key holds a value that is not
  a mapping. The claim promises the top-level \<open>variables\<close> or the empty mapping; the code
  raises \<open>AttributeError\<close>, because \<open>.get("variables")\<close> is called on whatever
  \<open>response.get("data", {})\<close> returned. With \<open>"data"\<close> absent or a mapping without
  variables the result is the empty mapping, as the claim says.
\<close>

theorem extract_variables_raises_on_non_mapping_data:
  "extract_variables (JDict [(''data'', JNull), (''variables'', JDict [(''service_authorized'', JStr ''true'')])])
     = Inl (AttributeError ''NoneType'')
   \<and> extract_variables (JDict [(''data'', JList [])]) = Inl (AttributeError ''list'')
   \<and> extract_variables (JDict []) = Inr []
   \<and> extract_variables (JDict [(''data'', JDict [])]) = Inr []"
  by (simp add: extract_variables_def attr_get_def dict_get_default_def dict_get_def)

text \<open>
  C3 (as amended). In every result that \<open>run\<close> returns, \<open>details\<close> is present exactly
  when \<open>success\<close> is true and \<open>error\<close> is present exactly when \<open>success\<close> is false.
  The error is \<open>str(exc)\<close> of the exception caught for that profile: the one raised by
  the gateway, or the one raised by the interpreter on the gateway's answer. When neither
  raises, the result is a success whose details are those the interpreter built, and it
  has no error.
\<close>

theorem details_and_error_presence:
  assumes "run rp post self sched = Some rs"
  shows "(\<forall>r \<in> set rs. (details r \<noteq> None) = success r \<and> (error r \<noteq> None) = (\<not> success r))
    \<and> (\<forall>i exc. i < length rs \<longrightarrow> answer post self i = Inl exc \<longrightarrow>
          \<not> success (rs ! i) \<and> details (rs ! i) = None \<and> error (rs ! i) = Some (str_exc exc))
    \<and> (\<forall>i raw exc. i < length rs \<longrightarrow> answer post self i = Inr raw \<longrightarrow>
          build_details rp raw = Inl exc \<longrightarrow>
          \<not> success (rs ! i) \<and> details (rs ! i) = None \<and> error (rs ! i) = Some (str_exc exc))
    \<and> (\<forall>i raw d. i < length rs \<longrightarrow> answer post self i = Inr raw \<longrightarrow>
          build_details rp raw = Inr d \<longrightarrow>
          success (rs ! i) \<and> details (rs ! i) = Some d \<and> error (rs ! i) = None)"
proof -
  have shape: "\<exists>t0 t1. rs ! i = conclude rp (profiles self ! i) t0 (answer post self i) t1"
    if "i < length rs" for i
  proof -
    from run_results [OF assms] that
    have "rs ! i = conclude rp (profiles self ! i) (started_at (rs ! i)) (answer post self i)
                     (finished_at (rs ! i))"
      by simp
    then show ?thesis by blast
  qed
  have presence: "\<forall>r \<in> set rs. (details r \<noteq> None) = success r \<and> (error r \<noteq> None) = (\<not> success r)"
  proof
    fix r assume "r \<in> set rs"
    then obtain i where i: "i < length rs" and ri: "rs ! i = r"
      by (auto simp: in_set_conv_nth)
    from shape [OF i] ri obtain p t0 a t1 where eq: "r = conclude rp p t0 a t1"
      by blast
    show "(details r \<noteq> None) = success r \<and> (error r \<noteq> None) = (\<not> success r)"
      unfolding eq by (rule conclude_presence)
  qed
  have gw: "\<forall>i exc. i < length rs \<longrightarrow> answer post self i = Inl exc \<longrightarrow>
          \<not> success (rs ! i) \<and> details (rs ! i) = None \<and> error (rs ! i) = Some (str_exc exc)"
  proof (intro allI impI)
    fix i exc assume i: "i < length rs" and a: "answer post self i = Inl exc"
    from shape [OF i] obtain t0 t1
      where eq: "rs ! i = conclude rp (profiles self ! i) t0 (answer post self i) t1"
      by blast
    from conclude_gateway_raises [of rp "profiles self ! i" t0 exc t1]
    show "\<not> success (rs ! i) \<and> details (rs ! i) = None \<and> error (rs ! i) = Some (str_exc exc)"
      unfolding eq a by blast
  qed
  have ip: "\<forall>i raw exc. i < length rs \<longrightarrow> answer post self i = Inr raw \<longrightarrow>
          build_details rp raw = Inl exc \<longrightarrow>
          \<not> success (rs ! i) \<and> details (rs ! i) = None \<and> error (rs ! i) = Some (str_exc exc)"
  proof (intro allI impI)
    fix i raw exc assume i: "i < length rs" and a: "answer post self i = Inr raw"
      and b: "build_details rp raw = Inl exc"
    from shape [OF i] obtain t0 t1
      where eq: "rs ! i = conclude rp (profiles self ! i) t0 (answer post self i) t1"
      by blast
    from conclude_interpreter_raises [OF b, of "profiles self ! i" t0 t1]
    show "\<not> success (rs ! i) \<and> details (rs ! i) = None \<and> error (rs ! i) = Some (str_exc exc)"
      unfolding eq a by blast
  qed
  have ok: "\<forall>i raw d. i < length rs \<longrightarrow> answer post self i = Inr raw \<longrightarrow>
          build_details rp raw = Inr d \<longrightarrow>
          success (rs ! i) \<and> details (rs ! i) = Some d \<and> error (rs ! i) = None"
  proof (intro allI impI)
    fix i raw d assume i: "i < length rs" and a: "answer post self i = Inr raw"
      and b: "build_details rp raw = Inr d"
    from shape [OF i] obtain t0 t1
      where eq: "rs ! i = conclude rp (profiles self ! i) t0 (answer post self i) t1"
      by blast
    from conclude_succeeds [OF b, of "profiles self ! i" t0 t1]
    show "success (rs ! i) \<and> details (rs ! i) = Some d \<and> error (rs ! i) = None"
      unfolding eq a by blast
  qed
  from presence gw ip ok show ?thesis by blast
qed

theorem details_and_error_presence_witness:
  "run demo_repr flaky_post (AuthorizationChecker_init demo_client demo_scenario demo_profiles 1) one_by_one \<noteq> None
   \<and> success (the (run demo_repr flaky_post
        (AuthorizationChecker_init demo_client demo_scenario demo_profiles 1) one_by_one) ! 0)
   \<and> details (the (run demo_repr flaky_post
        (AuthorizationChecker_init demo_client demo_scenario demo_profiles 1) one_by_one) ! 0)
      = Some \<lparr>authorized = True, display_name = Some ''Bob'', profile_serial = None,
               raw_variables = [(''service_authorized'', JStr ''true''),
                                (''service_display_name'', JStr '' Bob '')]\<rparr>
   \<and> error (the (run demo_repr flaky_post
        (AuthorizationChecker_init demo_client demo_scenario demo_profiles 1) one_by_one) ! 0) = None
   \<and> \<not> success (the (run demo_repr flaky_post
        (AuthorizationChecker_init demo_client demo_scenario demo_profiles 1) one_by_one) ! 1)
   \<and> details (the (run demo_repr flaky_post
        (AuthorizationChecker_init demo_client demo_scenario demo_profiles 1) one_by_one) ! 1) = None
   \<and> error (the (run demo_repr flaky_post
        (AuthorizationChecker_init demo_client demo_scenario demo_profiles 1) one_by_one) ! 1)
      = Some ''connection refused''
   \<and> run demo_repr null_data_post (AuthorizationChecker_init demo_client demo_scenario demo_profiles 1) one_by_one \<noteq> None
   \<and> \<not> success (the (run demo_repr null_data_post
        (AuthorizationChecker_init demo_client demo_scenario demo_profiles 1) one_by_one) ! 0)
   \<and> error (the (run demo_repr null_data_post
        (AuthorizationChecker_init demo_client demo_scenario demo_profiles 1) one_by_one) ! 0)
      = Some (str_exc (AttributeError ''NoneType''))"
proof -
  let ?self = "AuthorizationChecker_init demo_client demo_scenario demo_profiles 1"
  have "run demo_repr flaky_post ?self one_by_one \<noteq> None" by code_simp
  then obtain rs where rs: "run demo_repr flaky_post ?self one_by_one = Some rs" by blast
  have "length (the (run demo_repr flaky_post ?self one_by_one)) = 2" by code_simp
  with rs have len: "length rs = 2" by simp
  have a1: "answer flaky_post ?self 1 = Inl (LibraryError ''connection refused'')"
    by (simp add: answer_def flaky_post_def)
  have a0: "answer flaky_post ?self 0 =
      Inr (JDict [(''data'', JDict [(''variables'',
            JDict [(''service_authorized'', JStr ''true''),
                   (''service_display_name'', JStr '' Bob '')])])])"
    by (simp add: answer_def flaky_post_def bob_post_def)
  have b0: "build_details demo_repr (JDict [(''data'', JDict [(''variables'',
            JDict [(''service_authorized'', JStr ''true''),
                   (''service_display_name'', JStr '' Bob '')])])])
      = Inr \<lparr>authorized = True, display_name = Some ''Bob'', profile_serial = None,
               raw_variables = [(''service_authorized'', JStr ''true''),
                                (''service_display_name'', JStr '' Bob '')]\<rparr>"
    by code_simp
  have "run demo_repr null_data_post ?self one_by_one \<noteq> None" by code_simp
  then obtain ns where ns: "run demo_repr null_data_post ?self one_by_one = Some ns" by blast
  have "length (the (run demo_repr null_data_post ?self one_by_one)) = 2" by code_simp
  with ns have nlen: "length ns = 2" by simp
  have n0: "answer null_data_post ?self 0 = Inr (JDict [(''code'', JInt 0), (''data'', JNull)])"
    by (simp add: answer_def null_data_post_def)
  have nb: "build_details demo_repr (JDict [(''code'', JInt 0), (''data'', JNull)])
      = Inl (AttributeError ''NoneType'')"
    by code_simp
  from details_and_error_presence [OF rs] len a0 a1 b0
  have first: "success (rs ! 0) \<and> details (rs ! 0)
      = Some \<lparr>authorized = True, display_name = Some ''Bob'', profile_serial = None,
               raw_variables = [(''service_authorized'', JStr ''true''),
                                (''service_display_name'', JStr '' Bob '')]\<rparr>
      \<and> error (rs ! 0) = None
      \<and> \<not> success (rs ! 1) \<and> details (rs ! 1) = None
      \<and> error (rs ! 1) = Some (str_exc (LibraryError ''connection refused''))"
    by simp
  from details_and_error_presence [OF ns] nlen n0 nb
  have second: "\<not> success (ns ! 0) \<and> error (ns ! 0) = Some (str_exc (AttributeError ''NoneType''))"
    by simp
  from first second rs ns show ?thesis by simp
qed

text \<open>
  The text of the error may be empty: when every call of the gateway ends in an
  exception without a message, each result carries \<open>error = ""\<close>.
\<close>

theorem empty_error_counterexample:
  "run demo_repr timeout_post (AuthorizationChecker_init demo_client demo_scenario demo_profiles 1) one_by_one
  = Some [\<lparr>profile_id = ''p1'', label = Some ''first'', success = False, details = None,
            error = Some [], started_at = 10, finished_at = 12, raw_response = JDict []\<rparr>,
          \<lparr>profile_id = ''p2'', label = None, success = False, details = None,
            error = Some [], started_at = 13, finished_at = 15, raw_response = JDict []\<rparr>]"
  by code_simp

text \<open>
  C4. Failure isolation. Let two gateways answer alike for every task except the one at
  position \<open>i\<close>. Then the results of all other profiles agree in \<open>success\<close>, \<open>details\<close>
  and \<open>error\<close>; if the gateway or the interpreter raises for task \<open>i\<close>, its result
  is a failure without details whose error is the text of the exception; and the run
  still returns a full list.
\<close>

theorem failure_isolation:
  assumes "\<forall>j. j \<noteq> i \<longrightarrow> post' j = post j"
    and "run rp post (AuthorizationChecker_init cl sc ps c) sched = Some rs"
    and "run rp post' (AuthorizationChecker_init cl sc ps c) sched' = Some rs'"
  shows "length rs' = length ps
    \<and> (\<forall>j < length ps. j \<noteq> i \<longrightarrow>
          success (rs' ! j) = success (rs ! j) \<and> details (rs' ! j) = details (rs ! j)
          \<and> error (rs' ! j) = error (rs ! j))
    \<and> (\<forall>exc. i < length ps \<longrightarrow> answer post' (AuthorizationChecker_init cl sc ps c) i = Inl exc \<longrightarrow>
          \<not> success (rs' ! i) \<and> details (rs' ! i) = None \<and> error (rs' ! i) = Some (str_exc exc))
    \<and> (\<forall>raw exc. i < length ps \<longrightarrow> answer post' (AuthorizationChecker_init cl sc ps c) i = Inr raw \<longrightarrow>
          build_details rp raw = Inl exc \<longrightarrow>
          \<not> success (rs' ! i) \<and> details (rs' ! i) = None \<and> error (rs' ! i) = Some (str_exc exc))
    \<and> (\<forall>s. \<exists>more out. run rp post' (AuthorizationChecker_init cl sc ps c) (s @ more) = Some out)"
proof -
  let ?self = "AuthorizationChecker_init cl sc ps c"
  from run_results [OF assms(2)]
  have each: "\<And>j. j < length ps \<Longrightarrow>
      rs ! j = conclude rp (ps ! j) (started_at (rs ! j)) (answer post ?self j) (finished_at (rs ! j))"
    by (simp_all add: init_fields)
  from run_results [OF assms(3)] have len': "length rs' = length ps"
    and each': "\<And>j. j < length ps \<Longrightarrow>
      rs' ! j = conclude rp (ps ! j) (started_at (rs' ! j)) (answer post' ?self j) (finished_at (rs' ! j))"
    by (simp_all add: init_fields)
  have others: "\<forall>j < length ps. j \<noteq> i \<longrightarrow>
          success (rs' ! j) = success (rs ! j) \<and> details (rs' ! j) = details (rs ! j)
          \<and> error (rs' ! j) = error (rs ! j)"
  proof (intro allI impI)
    fix j assume j: "j < length ps" and ne: "j \<noteq> i"
    from assms(1) ne have "post' j = post j" by blast
    then have same: "answer post' ?self j = answer post ?self j"
      by (rule answer_agree)
    note a = result_outcome [OF each [OF j]]
    note b = result_outcome [OF each' [OF j], unfolded same]
    from a b
    show "success (rs' ! j) = success (rs ! j) \<and> details (rs' ! j) = details (rs ! j)
          \<and> error (rs' ! j) = error (rs ! j)"
      by simp
  qed
  have gw: "\<forall>exc. i < length ps \<longrightarrow> answer post' ?self i = Inl exc \<longrightarrow>
          \<not> success (rs' ! i) \<and> details (rs' ! i) = None \<and> error (rs' ! i) = Some (str_exc exc)"
  proof (intro allI impI)
    fix exc assume i: "i < length ps" and a: "answer post' ?self i = Inl exc"
    note b = result_outcome [OF each' [OF i], unfolded a]
    from b conclude_gateway_raises [of rp "ps ! i" 0 exc 0]
    show "\<not> success (rs' ! i) \<and> details (rs' ! i) = None
        \<and> error (rs' ! i) = Some (str_exc exc)"
      by simp
  qed
  have ip: "\<forall>raw exc. i < length ps \<longrightarrow> answer post' ?self i = Inr raw \<longrightarrow>
          build_details rp raw = Inl exc \<longrightarrow>
          \<not> success (rs' ! i) \<and> details (rs' ! i) = None \<and> error (rs' ! i) = Some (str_exc exc)"
  proof (intro allI impI)
    fix raw exc assume i: "i < length ps" and a: "answer post' ?self i = Inr raw"
      and b: "build_details rp raw = Inl exc"
    note c = result_outcome [OF each' [OF i], unfolded a]
    from c conclude_interpreter_raises [OF b, of "ps ! i" 0 0]
    show "\<not> success (rs' ! i) \<and> details (rs' ! i) = None \<and> error (rs' ! i) = Some (str_exc exc)"
      by simp
  qed
  have "1 \<le> concurrency ?self" by (simp add: init_fields)
  then have "\<forall>s. \<exists>more out. run rp post' ?self (s @ more) = Some out"
    by (blast intro: run_completes)
  with len' others gw ip show ?thesis by blast
qed

theorem failure_isolation_witness:
  "run demo_repr bob_post (AuthorizationChecker_init demo_client demo_scenario demo_profiles 2) overlapping \<noteq> None
   \<and> run demo_repr flaky_post (AuthorizationChecker_init demo_client demo_scenario demo_profiles 2) one_by_one \<noteq> None
   \<and> success (the (run demo_repr flaky_post
        (AuthorizationChecker_init demo_client demo_scenario demo_profiles 2) one_by_one) ! 0)
      = success (the (run demo_repr bob_post
        (AuthorizationChecker_init demo_client demo_scenario demo_profiles 2) overlapping) ! 0)
   \<and> details (the (run demo_repr flaky_post
        (AuthorizationChecker_init demo_client demo_scenario demo_profiles 2) one_by_one) ! 0)
      = details (the (run demo_repr bob_post
        (AuthorizationChecker_init demo_client demo_scenario demo_profiles 2) overlapping) ! 0)
   \<and> \<not> success (the (run demo_repr flaky_post
        (AuthorizationChecker_init demo_client demo_scenario demo_profiles 2) one_by_one) ! 1)
   \<and> details (the (run demo_repr flaky_post
        (AuthorizationChecker_init demo_client demo_scenario demo_profiles 2) one_by_one) ! 1) = None
   \<and> error (the (run demo_repr flaky_post
        (AuthorizationChecker_init demo_client demo_scenario demo_profiles 2) one_by_one) ! 1)
      = Some ''connection refused''"
proof -
  have agree: "\<forall>j. j \<noteq> 1 \<longrightarrow> flaky_post j = bob_post j"
    by (simp add: flaky_post_def fun_eq_iff)
  have "run demo_repr bob_post
      (AuthorizationChecker_init demo_client demo_scenario demo_profiles 2) overlapping \<noteq> None"
    by code_simp
  then obtain rs where rs: "run demo_repr bob_post
      (AuthorizationChecker_init demo_client demo_scenario demo_profiles 2) overlapping = Some rs"
    by blast
  have "run demo_repr flaky_post
      (AuthorizationChecker_init demo_client demo_scenario demo_profiles 2) one_by_one \<noteq> None"
    by code_simp
  then obtain rs' where rs': "run demo_repr flaky_post
      (AuthorizationChecker_init demo_client demo_scenario demo_profiles 2) one_by_one = Some rs'"
    by blast
  have a: "answer flaky_post (AuthorizationChecker_init demo_client demo_scenario demo_profiles 2) 1
      = Inl (LibraryError ''connection refused'')"
    by (simp add: answer_def flaky_post_def)
  have len: "length demo_profiles = 2" by (simp add: demo_profiles_def)
  from failure_isolation [OF agree rs rs'] a len
  have "success (rs' ! 0) = success (rs ! 0) \<and> details (rs' ! 0) = details (rs ! 0)
      \<and> \<not> success (rs' ! 1) \<and> details (rs' ! 1) = None
      \<and> error (rs' ! 1) = Some (str_exc (LibraryError ''connection refused''))"
    by simp
  with rs rs' show ?thesis by simp
qed

text \<open>
  C5. For the same client, scenario, profiles and gateway behaviour, two runs under any
  two concurrency limits and any two schedules return lists that are equal in order and
  in every field of every result apart from the two clock readings \<open>started_at\<close> and
  \<open>finished_at\<close>, which record when the event loop ran the task.
\<close>

theorem concurrency_independence:
  assumes "run rp post (AuthorizationChecker_init cl sc ps c1) sched1 = Some rs1"
    and "run rp post (AuthorizationChecker_init cl sc ps c2) sched2 = Some rs2"
  shows "map without_timing rs1 = map without_timing rs2"
proof -
  from run_results [OF assms(1)] have len1: "length rs1 = length ps"
    and each1: "\<And>j. j < length ps \<Longrightarrow>
      rs1 ! j = conclude rp (ps ! j) (started_at (rs1 ! j))
                  (answer post (AuthorizationChecker_init cl sc ps c1) j) (finished_at (rs1 ! j))"
    by (simp_all add: init_fields)
  from run_results [OF assms(2)] have len2: "length rs2 = length ps"
    and each2: "\<And>j. j < length ps \<Longrightarrow>
      rs2 ! j = conclude rp (ps ! j) (started_at (rs2 ! j))
                  (answer post (AuthorizationChecker_init cl sc ps c2) j) (finished_at (rs2 ! j))"
    by (simp_all add: init_fields)
  have "\<forall>j < length ps. without_timing (rs1 ! j) = without_timing (rs2 ! j)"
  proof (intro allI impI)
    fix j assume j: "j < length ps"
    from each1 [OF j] each2 [OF j] answer_init [of post cl sc ps c1 j c2]
    show "without_timing (rs1 ! j) = without_timing (rs2 ! j)"
      by (metis conclude_without_timing)
  qed
  with len1 len2 show ?thesis
    by (simp add: list_eq_iff_nth_eq)
qed

theorem concurrency_independence_witness:
  "run demo_repr flaky_post (AuthorizationChecker_init demo_client demo_scenario demo_profiles 1) one_by_one \<noteq> None
   \<and> run demo_repr flaky_post (AuthorizationChecker_init demo_client demo_scenario demo_profiles 2) overlapping \<noteq> None
   \<and> map without_timing (the (run demo_repr flaky_post
        (AuthorizationChecker_init demo_client demo_scenario demo_profiles 1) one_by_one))
      = map without_timing (the (run demo_repr flaky_post
        (AuthorizationChecker_init demo_client demo_scenario demo_profiles 2) overlapping))"
proof -
  have "run demo_repr flaky_post
      (AuthorizationChecker_init demo_client demo_scenario demo_profiles 1) one_by_one \<noteq> None"
    by code_simp
  then obtain rs1 where rs1: "run demo_repr flaky_post
      (AuthorizationChecker_init demo_client demo_scenario demo_profiles 1) one_by_one = Some rs1"
    by blast
  have "run demo_repr flaky_post
      (AuthorizationChecker_init demo_client demo_scenario demo_profiles 2) overlapping \<noteq> None"
    by code_simp
  then obtain rs2 where rs2: "run demo_repr flaky_post
      (AuthorizationChecker_init demo_client demo_scenario demo_profiles 2) overlapping = Some rs2"
    by blast
  from concurrency_independence [OF rs1 rs2] rs1 rs2 show ?thesis by simp
qed

text \<open>
  C6. \<open>_parse_bool\<close> returns a boolean for every value: a boolean is returned as it
  is; a string gives true exactly when its stripped, lowercased form is one of
  \<open>"1"\<close>, \<open>"true"\<close>, \<open>"yes"\<close>, \<open>"y"\<close>; a number gives false exactly when it is zero;
  \<open>None\<close>, lists and dicts give false.
\<close>

theorem parse_bool_total:
  "parse_bool (JBool b) = b
   \<and> parse_bool (JStr s) = (lower (strip s) \<in> {''1'', ''true'', ''yes'', ''y''})
   \<and> parse_bool (JInt i) = (i \<noteq> 0)
   \<and> parse_bool (JFloat f) = (f \<noteq> Finite 0)
   \<and> parse_bool JNull = False
   \<and> parse_bool (JList xs) = False
   \<and> parse_bool (JDict d) = False
   \<and> parse_bool (JStr ''YES'') = True
   \<and> parse_bool (JStr '' Yes '') = True
   \<and> parse_bool (JInt 0) = False
   \<and> parse_bool (JFloat (Finite (7 / 2))) = True
   \<and> parse_bool (JFloat NaN) = True
   \<and> parse_bool (JStr ''nope'') = False"
proof -
  have general: "parse_bool (JBool b) = b
   \<and> parse_bool (JStr s) = (lower (strip s) \<in> {''1'', ''true'', ''yes'', ''y''})
   \<and> parse_bool (JInt i) = (i \<noteq> 0)
   \<and> parse_bool (JFloat f) = (f \<noteq> Finite 0)
   \<and> parse_bool JNull = False
   \<and> parse_bool (JList xs) = False
   \<and> parse_bool (JDict d) = False"
    by (simp add: parse_bool_def)
  have examples: "parse_bool (JStr ''YES'') = True
   \<and> parse_bool (JStr '' Yes '') = True
   \<and> parse_bool (JInt 0) = False
   \<and> parse_bool (JFloat (Finite (7 / 2))) = True
   \<and> parse_bool (JFloat NaN) = True
   \<and> parse_bool (JStr ''nope'') = False"
    by code_simp
  from general examples show ?thesis by blast
qed

text \<open>
  C7. \<open>_coerce_optional_str\<close> maps \<open>None\<close> to \<open>None\<close>; any other value is turned into
  text and stripped, and the result is \<open>None\<close> when nothing is left and the stripped
  text otherwise. A returned text is not empty, neither starts nor ends with white space,
  and differs from \<open>str(value)\<close> only by white space at both ends. A string of white
  space gives \<open>None\<close>, and \<open>42\<close> gives \<open>"42"\<close>.
\<close>

theorem coerce_optional_str_spec:
  "coerce_optional_str rp JNull = None
   \<and> (v \<noteq> JNull \<longrightarrow> strip (py_str rp v) = [] \<longrightarrow> coerce_optional_str rp v = None)
   \<and> (v \<noteq> JNull \<longrightarrow> strip (py_str rp v) \<noteq> [] \<longrightarrow>
         coerce_optional_str rp v = Some (strip (py_str rp v)))
   \<and> (coerce_optional_str rp v = Some t \<longrightarrow>
         t \<noteq> [] \<and> \<not> isspace (hd t) \<and> \<not> isspace (last t)
         \<and> (\<exists>a b. py_str rp v = a @ t @ b \<and> (\<forall>c\<in>set a. isspace c) \<and> (\<forall>c\<in>set b. isspace c)))
   \<and> ((\<forall>c\<in>set s. isspace c) \<longrightarrow> coerce_optional_str rp (JStr s) = None)
   \<and> coerce_optional_str rp (JStr ''   '') = None
   \<and> coerce_optional_str rp (JInt 42) = Some ''42''"
proof -
  have none: "coerce_optional_str rp JNull = None"
    by (simp add: coerce_optional_str_def)
  have empty: "v \<noteq> JNull \<longrightarrow> strip (py_str rp v) = [] \<longrightarrow> coerce_optional_str rp v = None"
    by (simp add: coerce_optional_str_def)
  have nonempty: "v \<noteq> JNull \<longrightarrow> strip (py_str rp v) \<noteq> [] \<longrightarrow>
         coerce_optional_str rp v = Some (strip (py_str rp v))"
    by (simp add: coerce_optional_str_def)
  have trimmed: "coerce_optional_str rp v = Some t \<longrightarrow>
         t \<noteq> [] \<and> \<not> isspace (hd t) \<and> \<not> isspace (last t)
         \<and> (\<exists>a b. py_str rp v = a @ t @ b \<and> (\<forall>c\<in>set a. isspace c) \<and> (\<forall>c\<in>set b. isspace c))"
  proof
    assume "coerce_optional_str rp v = Some t"
    then have t: "t = strip (py_str rp v)" and ne: "strip (py_str rp v) \<noteq> []"
      by (auto simp: coerce_optional_str_def Let_def split: if_splits)
    from strip_hd [OF ne] strip_last [OF ne] strip_decomp [of "py_str rp v"] ne
    show "t \<noteq> [] \<and> \<not> isspace (hd t) \<and> \<not> isspace (last t)
         \<and> (\<exists>a b. py_str rp v = a @ t @ b \<and> (\<forall>c\<in>set a. isspace c) \<and> (\<forall>c\<in>set b. isspace c))"
      unfolding t by blast
  qed
  have blank: "(\<forall>c\<in>set s. isspace c) \<longrightarrow> coerce_optional_str rp (JStr s) = None"
    by (simp add: coerce_optional_str_def strip_all_space)
  have spaces: "coerce_optional_str rp (JStr ''   '') = None"
  proof -
    have "strip ''   '' = []" by code_simp
    then show ?thesis by (simp add: coerce_optional_str_def)
  qed
  have num: "coerce_optional_str rp (JInt 42) = Some ''42''"
    by (simp add: coerce_optional_str_def str_int_42 strip_42)
  from none empty nonempty trimmed blank spaces num show ?thesis by blast
qed

theorem coerce_optional_str_spec_witness:
  "coerce_optional_str demo_repr (JStr '' Bob '') = Some ''Bob''
   \<and> \<not> isspace (hd ''Bob'') \<and> \<not> isspace (last ''Bob'')
   \<and> coerce_optional_str demo_repr (JStr [CHR 0x09, CHR '' '']) = None
   \<and> coerce_optional_str demo_repr (JBool False) = Some ''False''"
proof -
  have a: "JStr '' Bob '' \<noteq> JNull" by simp
  have b: "strip (py_str demo_repr (JStr '' Bob '')) = ''Bob''" by code_simp
  have c: "\<forall>c\<in>set [CHR 0x09, CHR '' '']. isspace c" by (simp add: isspace_def)
  have d: "strip (py_str demo_repr (JBool False)) = ''False''" by code_simp
  from a b c coerce_optional_str_spec [of demo_repr "JStr '' Bob ''" "''Bob''" "[CHR 0x09, CHR '' '']"]
  have "coerce_optional_str demo_repr (JStr '' Bob '') = Some ''Bob''
     \<and> \<not> isspace (hd ''Bob'') \<and> \<not> isspace (last ''Bob'')
     \<and> coerce_optional_str demo_repr (JStr [CHR 0x09, CHR '' '']) = None"
    by simp
  moreover from d coerce_optional_str_spec [of demo_repr "JBool False" "''False''" "[]"]
  have "coerce_optional_str demo_repr (JBool False) = Some ''False''"
    by simp
  ultimately show ?thesis by blast
qed

text \<open>
  C8. Whatever integer is passed as \<open>concurrency\<close>, the checker's limit is at least 1:
  a value below 1 becomes 1 and any other value is kept. The semaphore therefore starts
  with a free slot, and every schedule can be continued until all tasks have returned.
\<close>

theorem concurrency_at_least_one:
  "1 \<le> concurrency (AuthorizationChecker_init cl sc ps c)
   \<and> (c < 1 \<longrightarrow> concurrency (AuthorizationChecker_init cl sc ps c) = 1)
   \<and> (1 \<le> c \<longrightarrow> concurrency (AuthorizationChecker_init cl sc ps c) = c)
   \<and> 1 \<le> semaphore (start (AuthorizationChecker_init cl sc ps c))
   \<and> (\<forall>sched. \<exists>more rs. run rp post (AuthorizationChecker_init cl sc ps c) (sched @ more) = Some rs)"
proof -
  have one: "1 \<le> concurrency (AuthorizationChecker_init cl sc ps c)" by (simp add: init_fields)
  then have "\<forall>sched. \<exists>more rs. run rp post (AuthorizationChecker_init cl sc ps c) (sched @ more) = Some rs"
    by (blast intro: run_completes)
  moreover have "1 \<le> semaphore (start (AuthorizationChecker_init cl sc ps c))"
    using one by (simp add: start_def)
  moreover have "c < 1 \<longrightarrow> concurrency (AuthorizationChecker_init cl sc ps c) = 1"
    by (simp add: init_fields)
  moreover have "1 \<le> c \<longrightarrow> concurrency (AuthorizationChecker_init cl sc ps c) = c"
    by (simp add: init_fields)
  ultimately show ?thesis using one by blast
qed

theorem concurrency_at_least_one_witness:
  "concurrency (AuthorizationChecker_init demo_client demo_scenario demo_profiles 0) = 1
   \<and> concurrency (AuthorizationChecker_init demo_client demo_scenario demo_profiles (- 3)) = 1
   \<and> concurrency (AuthorizationChecker_init demo_client demo_scenario demo_profiles 5) = 5
   \<and> 1 \<le> semaphore (start (AuthorizationChecker_init demo_client demo_scenario demo_profiles 0))"
  using concurrency_at_least_one [of demo_client demo_scenario demo_profiles 0 demo_repr flaky_post]
    concurrency_at_least_one [of demo_client demo_scenario demo_profiles "- 3" demo_repr flaky_post]
    concurrency_at_least_one [of demo_client demo_scenario demo_profiles 5 demo_repr flaky_post]
  by simp

text \<open>
  C9 (as amended). \<open>run_automation\<close> posts a mapping with exactly the keys
  \<open>profile_id\<close>, \<open>steps\<close> and \<open>options\<close>: the profile identifier, the caller's list of
  steps unchanged, and the fixed options \<open>fail_on_selector_timeout = True\<close> and
  \<open>capture_console = True\<close>. Each step of a scenario is sent as a mapping with the keys
  \<open>type\<close> and \<open>config\<close>, in the order of the scenario.
\<close>

theorem run_automation_envelope:
  "fst (run_automation post self pid ss) = post (fst (get_client self)) (payload pid ss)
   \<and> keys_of (payload pid ss) = [''profile_id'', ''steps'', ''options'']
   \<and> attr_get (payload pid ss) ''profile_id'' = Inr (JStr pid)
   \<and> attr_get (payload pid ss) ''steps'' = Inr (JList ss)
   \<and> attr_get (payload pid ss) ''options''
        = Inr (JDict [(''fail_on_selector_timeout'', JBool True), (''capture_console'', JBool True)])
   \<and> to_payload sc
        = map (\<lambda>step. JDict [(''type'', JStr (type_s step)), (''config'', JDict (config step))]) (steps sc)"
  by (simp add: run_automation_eq payload_def attr_get_def dict_get_def to_payload_def to_dict_def)

text \<open>
  The keys \<open>profileId\<close>, \<open>failOnSelectorTimeout\<close>, \<open>captureConsole\<close>, \<open>kind\<close> and
  \<open>parameters\<close> do not occur in the request.
\<close>

theorem payload_keys_counterexample:
  "''profileId'' \<notin> set (keys_of (payload ''p1'' (to_payload demo_scenario)))
   \<and> ''failOnSelectorTimeout'' \<notin> set (keys_of (dict_get (the_dict (payload ''p1'' (to_payload demo_scenario))) ''options''))
   \<and> ''captureConsole'' \<notin> set (keys_of (dict_get (the_dict (payload ''p1'' (to_payload demo_scenario))) ''options''))
   \<and> ''kind'' \<notin> set (keys_of (hd (to_payload demo_scenario)))
   \<and> ''parameters'' \<notin> set (keys_of (hd (to_payload demo_scenario)))
   \<and> keys_of (payload ''p1'' (to_payload demo_scenario)) = [''profile_id'', ''steps'', ''options'']
   \<and> keys_of (dict_get (the_dict (payload ''p1'' (to_payload demo_scenario))) ''options'')
        = [''fail_on_selector_timeout'', ''capture_console'']
   \<and> keys_of (hd (to_payload demo_scenario)) = [''type'', ''config'']"
  by code_simp

text \<open>
  C10. \<open>close\<close> on a client without a session (a new client, or one that has been
  closed) returns without an exception and leaves the client as it was, whatever
  disposing a session would do; after a \<open>close\<close> that has returned, the client holds no
  session, and closing it again changes nothing.
\<close>

theorem close_idempotent:
  "close aclose (AdsPowerClient_init url key t) = (None, AdsPowerClient_init url key t)
   \<and> (client self = None \<longrightarrow> close aclose self = (None, self))
   \<and> (fst (close aclose self) = None \<longrightarrow>
        client (snd (close aclose self)) = None
        \<and> close aclose' (snd (close aclose self)) = (None, snd (close aclose self)))"
  by (auto simp: close_def AdsPowerClient_init_def split: option.splits)

theorem close_idempotent_witness:
  "client (snd (close quiet_aclose (snd (get_client demo_client)))) = None
   \<and> close failing_aclose (snd (close quiet_aclose (snd (get_client demo_client)))) = (None, demo_client)
   \<and> close failing_aclose demo_client = (None, demo_client)"
proof -
  have a: "fst (close quiet_aclose (snd (get_client demo_client))) = None" by code_simp
  have b: "snd (close quiet_aclose (snd (get_client demo_client))) = demo_client" by code_simp
  have c: "client demo_client = None" by code_simp
  from a b c
    close_idempotent [where aclose = quiet_aclose and self = "snd (get_client demo_client)"
      and aclose' = failing_aclose]
    close_idempotent [where aclose = failing_aclose and self = demo_client]
  show ?thesis by simp
qed

end
